theory Spec2Isabelle
  imports Complex_Main "HOL-Library.Sublist"
begin

section \<open>JavaScript values used by the rule engine\<close>

text \<open>
  The engine lives in \<^verbatim>\<open>src/App.tsx\<close> (\<^verbatim>\<open>evaluateCondition\<close>, \<^verbatim>\<open>evaluateRule\<close>),
  \<^verbatim>\<open>src/pages/Editor.tsx\<close> (\<^verbatim>\<open>generateNaturalLanguage\<close>, \<^verbatim>\<open>validateRule\<close>) and
  \<^verbatim>\<open>src/components/editor/NaturalLanguagePreview.tsx\<close>.

  A JavaScript number is \<open>NaN\<close>, an infinity or a finite value. Finite values are kept
  as exact rationals: the two zeros are identified (every comparison identifies them) and
  a decimal literal denotes its exact value instead of the nearest double.

  Node payloads are declared in the node components as optional strings
  (\<^verbatim>\<open>field?: string\<close>, \<^verbatim>\<open>value?: string\<close>, ...): a property is \<open>Some s\<close>, or
  \<open>None\<close> where JavaScript reads \<^verbatim>\<open>undefined\<close>. Input snapshots are plain objects
  (\<^verbatim>\<open>Record<string, any>\<close>, built from \<^verbatim>\<open>{}\<close>) whose own properties map a
  variable name to a string, a number or a boolean. Reading a name that is not an own
  property gives what the object inherits from \<^verbatim>\<open>Object.prototype\<close>, and
  \<^verbatim>\<open>undefined\<close> only when nothing is inherited under that name.
  Strings are byte sequences (UTF-8).
\<close>

datatype jsnum = NaN | NegInf | Fin rat | PosInf

text \<open>\<open>JInherited k\<close> is the member \<open>k\<close> of \<^verbatim>\<open>Object.prototype\<close>, a function or an object.\<close>

datatype jsval = JBool bool | JNum jsnum | JStr string | JInherited string

type_synonym jsprop = "string option"

type_synonym inputs = "string \<rightharpoonup> jsval"

fun num_eq :: "jsnum \<Rightarrow> jsnum \<Rightarrow> bool" where
  "num_eq (Fin a) (Fin b) = (a = b)"
| "num_eq PosInf PosInf = True"
| "num_eq NegInf NegInf = True"
| "num_eq _ _ = False"

fun num_lt :: "jsnum \<Rightarrow> jsnum \<Rightarrow> bool" where
  "num_lt NaN _ = False"
| "num_lt _ NaN = False"
| "num_lt (Fin a) (Fin b) = (a < b)"
| "num_lt NegInf NegInf = False"
| "num_lt NegInf _ = True"
| "num_lt _ NegInf = False"
| "num_lt PosInf _ = False"
| "num_lt _ PosInf = True"

definition num_gt :: "jsnum \<Rightarrow> jsnum \<Rightarrow> bool" where
  "num_gt a b = num_lt b a"

text \<open>\<^verbatim>\<open>a <= b\<close> is \<^verbatim>\<open>!(b < a)\<close> unless an operand is \<open>NaN\<close>, where it is false.\<close>

definition num_le :: "jsnum \<Rightarrow> jsnum \<Rightarrow> bool" where
  "num_le a b = (a \<noteq> NaN \<and> b \<noteq> NaN \<and> \<not> num_lt b a)"

definition num_ge :: "jsnum \<Rightarrow> jsnum \<Rightarrow> bool" where
  "num_ge a b = (a \<noteq> NaN \<and> b \<noteq> NaN \<and> \<not> num_lt a b)"

subsection \<open>Truthiness and property keys\<close>

text \<open>\<^verbatim>\<open>a || b\<close> on optional strings: \<^verbatim>\<open>undefined\<close> and the empty string are falsy.\<close>

definition truthy :: "jsprop \<Rightarrow> bool" where
  "truthy a = (case a of None \<Rightarrow> False | Some s \<Rightarrow> s \<noteq> [])"

definition js_or :: "jsprop \<Rightarrow> jsprop \<Rightarrow> jsprop" where
  "js_or a b = (if truthy a then a else b)"

text \<open>\<^verbatim>\<open>a || "literal"\<close>: the chain ends in a string.\<close>

definition js_or_lit :: "jsprop \<Rightarrow> string \<Rightarrow> string" where
  "js_or_lit a d = (case a of None \<Rightarrow> d | Some s \<Rightarrow> if s = [] then d else s)"

text \<open>\<^verbatim>\<open>obj[k]\<close> converts the key to a string; \<^verbatim>\<open>undefined\<close> becomes \<^verbatim>\<open>"undefined"\<close>.\<close>

definition ToString_prop :: "jsprop \<Rightarrow> string" where
  "ToString_prop a = (case a of None \<Rightarrow> ''undefined'' | Some s \<Rightarrow> s)"

subsection \<open>Property reads on plain objects\<close>

text \<open>
  The names every plain object inherits. All are functions but \<^verbatim>\<open>__proto__\<close>, which
  reads as \<^verbatim>\<open>Object.prototype\<close> itself.
\<close>

definition object_prototype_keys :: "string list" where
  "object_prototype_keys =
     [''constructor'', ''__defineGetter__'', ''__defineSetter__'', ''hasOwnProperty'',
      ''__lookupGetter__'', ''__lookupSetter__'', ''isPrototypeOf'', ''propertyIsEnumerable'',
      ''toString'', ''valueOf'', ''__proto__'', ''toLocaleString'']"

text \<open>
  What such a member converts to as a string (in V8; the standard fixes the text of a
  native function up to white space).
\<close>

definition inherited_text :: "string \<Rightarrow> string" where
  "inherited_text k =
     (if k = ''__proto__'' then ''[object Object]''
      else ''function '' @ (if k = ''constructor'' then ''Object'' else k) @ ''() { [native code] }'')"

text \<open>\<^verbatim>\<open>inputs[k]\<close>: the own property, else the inherited member, else \<^verbatim>\<open>undefined\<close>.\<close>

definition js_get :: "inputs \<Rightarrow> string \<Rightarrow> jsval option" where
  "js_get obj k =
     (case obj k of
        Some v \<Rightarrow> Some v
      | None \<Rightarrow> if k \<in> set object_prototype_keys then Some (JInherited k) else None)"

subsection \<open>Parsing numbers\<close>

text \<open>White space is the ASCII part of JavaScript's white space and line terminators.\<close>

definition is_ws :: "char \<Rightarrow> bool" where
  "is_ws c = (c \<in> set [CHR 0x09, CHR 0x0A, CHR 0x0B, CHR 0x0C, CHR 0x0D, CHR '' ''])"

definition is_digit :: "char \<Rightarrow> bool" where
  "is_digit c = (c \<in> set ''0123456789'')"

definition digit_table :: "(char \<times> nat) list" where
  "digit_table =
     [(CHR ''0'', 0), (CHR ''1'', 1), (CHR ''2'', 2), (CHR ''3'', 3), (CHR ''4'', 4),
      (CHR ''5'', 5), (CHR ''6'', 6), (CHR ''7'', 7), (CHR ''8'', 8), (CHR ''9'', 9),
      (CHR ''a'', 10), (CHR ''b'', 11), (CHR ''c'', 12), (CHR ''d'', 13), (CHR ''e'', 14),
      (CHR ''f'', 15), (CHR ''A'', 10), (CHR ''B'', 11), (CHR ''C'', 12), (CHR ''D'', 13),
      (CHR ''E'', 14), (CHR ''F'', 15)]"

definition digit_val :: "char \<Rightarrow> nat" where
  "digit_val c = (case map_of digit_table c of None \<Rightarrow> 0 | Some d \<Rightarrow> d)"

definition is_radix_digit :: "nat \<Rightarrow> char \<Rightarrow> bool" where
  "is_radix_digit r c = (case map_of digit_table c of None \<Rightarrow> False | Some d \<Rightarrow> d < r)"

definition radix_val :: "nat \<Rightarrow> string \<Rightarrow> nat" where
  "radix_val r ds = foldl (\<lambda>a c. r * a + digit_val c) 0 ds"

text \<open>The exponent part \<^verbatim>\<open>[eE][+-]?digits\<close>; without a digit there is no exponent.\<close>

definition parse_exponent :: "string \<Rightarrow> (int \<times> string) option" where
  "parse_exponent s =
     (case s of
        [] \<Rightarrow> None
      | c # t \<Rightarrow>
          if c \<in> set ''eE'' then
            (let neg = (t \<noteq> [] \<and> hd t = CHR ''-'');
                 u = (if t \<noteq> [] \<and> hd t \<in> set ''+-'' then tl t else t);
                 ds = takeWhile is_digit u
             in if ds = [] then None
                else Some ((if neg then - int (radix_val 10 ds) else int (radix_val 10 ds)),
                           dropWhile is_digit u))
          else None)"

definition scale10 :: "rat \<Rightarrow> int \<Rightarrow> rat" where
  "scale10 m e = (if 0 \<le> e then m * 10 ^ nat e else m / 10 ^ nat (- e))"

text \<open>
  The longest prefix that is a \<^verbatim>\<open>StrUnsignedDecimalLiteral\<close>
  (\<^verbatim>\<open>Infinity\<close>, \<^verbatim>\<open>d+.d*\<close>, \<^verbatim>\<open>.d+\<close>, \<^verbatim>\<open>d+\<close>, each with an optional exponent),
  with its value and the unread rest.
\<close>

definition parse_unsigned :: "string \<Rightarrow> (jsnum \<times> string) option" where
  "parse_unsigned s =
     (if take 8 s = ''Infinity'' then Some (PosInf, drop 8 s)
      else
        (let ip = takeWhile is_digit s;
             r1 = dropWhile is_digit s;
             dot = (r1 \<noteq> [] \<and> hd r1 = CHR ''.''
                    \<and> (ip \<noteq> [] \<or> (tl r1 \<noteq> [] \<and> is_digit (hd (tl r1)))));
             fp = (if dot then takeWhile is_digit (tl r1) else []);
             r2 = (if dot then dropWhile is_digit (tl r1) else r1)
         in if ip = [] \<and> fp = [] then None
            else
              (let m = rat_of_nat (radix_val 10 ip)
                         + rat_of_nat (radix_val 10 fp) / 10 ^ length fp
               in case parse_exponent r2 of
                    None \<Rightarrow> Some (Fin m, r2)
                  | Some (e, r3) \<Rightarrow> Some (Fin (scale10 m e), r3))))"

fun num_neg :: "jsnum \<Rightarrow> jsnum" where
  "num_neg NaN = NaN"
| "num_neg NegInf = PosInf"
| "num_neg PosInf = NegInf"
| "num_neg (Fin a) = Fin (- a)"

definition parse_signed :: "string \<Rightarrow> (jsnum \<times> string) option" where
  "parse_signed s =
     (if s \<noteq> [] \<and> hd s = CHR ''-'' then map_option (apfst num_neg) (parse_unsigned (tl s))
      else if s \<noteq> [] \<and> hd s = CHR ''+'' then parse_unsigned (tl s)
      else parse_unsigned s)"

text \<open>\<^verbatim>\<open>parseFloat(string)\<close>: skip leading white space, read the longest numeric prefix.\<close>

definition parseFloat_string :: "string \<Rightarrow> jsnum" where
  "parseFloat_string s =
     (case parse_signed (dropWhile is_ws s) of None \<Rightarrow> NaN | Some (n, _) \<Rightarrow> n)"

text \<open>
  \<^verbatim>\<open>parseFloat(x)\<close> converts \<open>x\<close> to a string first: a number reads back as itself,
  \<^verbatim>\<open>"true"\<close>, \<^verbatim>\<open>"false"\<close> and \<^verbatim>\<open>"undefined"\<close> are not numeric.
\<close>

fun parseFloat :: "jsval \<Rightarrow> jsnum" where
  "parseFloat (JStr s) = parseFloat_string s"
| "parseFloat (JNum n) = n"
| "parseFloat (JBool b) = NaN"
| "parseFloat (JInherited k) = parseFloat_string (inherited_text k)"

definition parseFloat_prop :: "jsprop \<Rightarrow> jsnum" where
  "parseFloat_prop v = parseFloat_string (ToString_prop v)"

definition trim :: "string \<Rightarrow> string" where
  "trim s = rev (dropWhile is_ws (rev (dropWhile is_ws s)))"

text \<open>
  \<^verbatim>\<open>ToNumber(string)\<close>, the conversion behind \<^verbatim>\<open>==\<close>: the whole trimmed string must be
  a numeric literal; the empty string is 0; \<^verbatim>\<open>0x\<close>, \<^verbatim>\<open>0o\<close> and \<^verbatim>\<open>0b\<close> literals
  are read in their radix.
\<close>

definition radix_literal :: "nat \<Rightarrow> string \<Rightarrow> jsnum" where
  "radix_literal r ds =
     (if ds \<noteq> [] \<and> list_all (is_radix_digit r) ds then Fin (rat_of_nat (radix_val r ds)) else NaN)"

definition StringToNumber :: "string \<Rightarrow> jsnum" where
  "StringToNumber s =
     (let t = trim s in
      if t = [] then Fin 0
      else if take 2 t \<in> set [''0x'', ''0X''] then radix_literal 16 (drop 2 t)
      else if take 2 t \<in> set [''0o'', ''0O''] then radix_literal 8 (drop 2 t)
      else if take 2 t \<in> set [''0b'', ''0B''] then radix_literal 2 (drop 2 t)
      else (case parse_signed t of
              None \<Rightarrow> NaN
            | Some (n, r) \<Rightarrow> if r = [] then n else NaN))"

subsection \<open>Equality\<close>

text \<open>
  \<^verbatim>\<open>inputValue === value\<close> and \<^verbatim>\<open>inputValue == value\<close> between an input value and a
  condition's \<^verbatim>\<open>value\<close> property. Strict equality needs equal types, so only two
  strings can be equal. Loose equality converts the string to a number when the input
  is a number, converts a boolean to 1 or 0 first, and converts a function or an object
  to its string; nothing but \<^verbatim>\<open>null\<close> and \<^verbatim>\<open>undefined\<close> equals \<^verbatim>\<open>undefined\<close>.
\<close>

fun strict_eq :: "jsval \<Rightarrow> jsprop \<Rightarrow> bool" where
  "strict_eq (JStr s) (Some v) = (s = v)"
| "strict_eq _ _ = False"

fun loose_eq :: "jsval \<Rightarrow> jsprop \<Rightarrow> bool" where
  "loose_eq _ None = False"
| "loose_eq (JStr s) (Some v) = (s = v)"
| "loose_eq (JNum n) (Some v) = num_eq n (StringToNumber v)"
| "loose_eq (JBool b) (Some v) = num_eq (Fin (if b then 1 else 0)) (StringToNumber v)"
| "loose_eq (JInherited k) (Some v) = (inherited_text k = v)"

section \<open>Rules: nodes and edges\<close>

record node_data =
  label :: jsprop
  field :: jsprop
  variable :: jsprop
  operator :: jsprop
  dvalue :: jsprop
  operatorType :: jsprop
  actionType :: jsprop
  target_name :: jsprop
  parameters :: jsprop

record node =
  node_id :: string
  ntype :: string
  data :: node_data

record edge =
  edge_id :: string
  source :: string
  target :: string

record rule =
  name :: string
  nodes :: "node list"
  edges :: "edge list"

section \<open>The predicate evaluator\<close>

text \<open>
  \<^verbatim>\<open>evaluateCondition\<close> (App.tsx 784-837). The variable looked up is
  \<^verbatim>\<open>condition.field || condition.variable\<close>, and the evaluator returns early when
  \<^verbatim>\<open>inputs[variable] === undefined\<close>.
\<close>

definition condition_variable :: "node_data \<Rightarrow> string" where
  "condition_variable c = ToString_prop (js_or (field c) (variable c))"

definition evaluateCondition :: "node_data \<Rightarrow> inputs \<Rightarrow> bool" where
  "evaluateCondition condition inputs =
     (case js_get inputs (condition_variable condition) of
        None \<Rightarrow> False
      | Some inputValue \<Rightarrow>
          (let op = operator condition; v = dvalue condition in
           if op \<in> {Some ''greaterThan'', Some ''>''} then
             num_gt (parseFloat inputValue) (parseFloat_prop v)
           else if op \<in> {Some ''lessThan'', Some ''<''} then
             num_lt (parseFloat inputValue) (parseFloat_prop v)
           else if op \<in> {Some ''greaterOrEqual'', Some ''>=''} then
             num_ge (parseFloat inputValue) (parseFloat_prop v)
           else if op \<in> {Some ''lessOrEqual'', Some ''<=''} then
             num_le (parseFloat inputValue) (parseFloat_prop v)
           else if op \<in> {Some ''equals'', Some ''==''} then loose_eq inputValue v
           else if op \<in> {Some ''notEquals'', Some ''!=''} then \<not> loose_eq inputValue v
           else if op = Some ''==='' then strict_eq inputValue v
           else if op = Some ''!=='' then \<not> strict_eq inputValue v
           else False))"

section \<open>The graph walker\<close>

text \<open>
  \<^verbatim>\<open>evaluateRule\<close> (App.tsx 839-941) keeps three variables that the nested
  \<^verbatim>\<open>evaluateNode\<close> updates: they are the state threaded through the walk.
\<close>

record eval_state =
  actions :: "string list"
  evaluationPath :: "string list"
  matched :: bool

definition find_node :: "rule \<Rightarrow> string \<Rightarrow> node option" where
  "find_node rule nodeId = find (\<lambda>n. node_id n = nodeId) (nodes rule)"

definition outgoingEdges :: "rule \<Rightarrow> string \<Rightarrow> edge list" where
  "outgoingEdges rule nodeId = filter (\<lambda>e. source e = nodeId) (edges rule)"

definition connectedSources :: "rule \<Rightarrow> string \<Rightarrow> string list" where
  "connectedSources rule nodeId = map source (filter (\<lambda>e. target e = nodeId) (edges rule))"

subsection \<open>Trace lines\<close>

definition arrow :: string where
  "arrow = [CHR 0xE2, CHR 0x86, CHR 0x92]"

definition check_mark :: string where
  "check_mark = [CHR 0xE2, CHR 0x9C, CHR 0x93]"

definition cross_mark :: string where
  "cross_mark = [CHR 0xE2, CHR 0x9C, CHR 0x97]"

definition indent :: "nat \<Rightarrow> string" where
  "indent depth = concat (replicate depth ''  '')"

definition truth_text :: "bool \<Rightarrow> string" where
  "truth_text b = (if b then check_mark @ '' TRUE'' else cross_mark @ '' FALSE'')"

definition condition_line :: "nat \<Rightarrow> node_data \<Rightarrow> bool \<Rightarrow> string" where
  "condition_line depth d result =
     indent depth @ ''Condition: '' @ js_or_lit (js_or (field d) (variable d)) ''undefined''
       @ '' '' @ js_or_lit (operator d) ''undefined''
       @ '' '' @ js_or_lit (dvalue d) ''undefined''
       @ '' '' @ arrow @ '' '' @ truth_text result"

definition operator_line :: "nat \<Rightarrow> string \<Rightarrow> bool \<Rightarrow> string" where
  "operator_line depth opname result =
     indent depth @ ''Operator: '' @ opname @ '' '' @ arrow @ '' '' @ truth_text result"

definition action_line :: "nat \<Rightarrow> string \<Rightarrow> string" where
  "action_line depth actionDisplay =
     indent depth @ ''Action: '' @ actionDisplay @ '' '' @ arrow @ '' '' @ check_mark @ '' EXECUTED''"

text \<open>\<^verbatim>\<open>s.replace(/_/g, " ")\<close>\<close>

definition replace_underscores :: "string \<Rightarrow> string" where
  "replace_underscores s = map (\<lambda>c. if c = CHR ''_'' then CHR '' '' else c) s"

definition actionDisplay :: "node_data \<Rightarrow> string" where
  "actionDisplay d =
     (if truthy (actionType d) \<and> truthy (target_name d) then
        replace_underscores (the (actionType d)) @ '': '' @ the (target_name d)
          @ (if truthy (parameters d) then '' ('' @ the (parameters d) @ '')'' else [])
      else if truthy (actionType d) then
        replace_underscores (the (actionType d)) @ '' (target not specified)''
      else if truthy (label d) \<and> label d \<noteq> Some ''Action'' \<and> label d \<noteq> Some ''New action'' then
        the (label d)
      else ''Action not fully defined - click to edit'')"

subsection \<open>Operator nodes\<close>

text \<open>
  An operand is a source of an edge into the operator. It is evaluated by
  \<^verbatim>\<open>evaluateCondition\<close> when it is a condition node, and is \<^verbatim>\<open>false\<close> otherwise.
\<close>

definition operand_result :: "rule \<Rightarrow> inputs \<Rightarrow> string \<Rightarrow> bool" where
  "operand_result rule inputs sourceId =
     (case find_node rule sourceId of
        None \<Rightarrow> False
      | Some sourceNode \<Rightarrow>
          if ntype sourceNode = ''condition'' then evaluateCondition (data sourceNode) inputs
          else False)"

text \<open>\<^verbatim>\<open>node.data.operatorType || node.data.operator || "AND"\<close>\<close>

definition operator_kind :: "node_data \<Rightarrow> string" where
  "operator_kind d = js_or_lit (js_or (operatorType d) (operator d)) ''AND''"

definition operatorResult :: "rule \<Rightarrow> inputs \<Rightarrow> string \<Rightarrow> node_data \<Rightarrow> bool" where
  "operatorResult rule inputs nodeId d =
     (let results = map (operand_result rule inputs) (connectedSources rule nodeId) in
      if operator_kind d = ''AND'' then list_all (\<lambda>r. r) results
      else if operator_kind d = ''OR'' then list_ex (\<lambda>r. r) results
      else False)"

subsection \<open>The recursive walk\<close>

text \<open>
  \<^verbatim>\<open>evaluateNode\<close> recurses along the edges with no guard, so the model carries fuel: the
  number of nested calls still allowed. \<open>None\<close> means that the fuel ran out.
  \<^verbatim>\<open>forEach_evaluateNode\<close> is the \<^verbatim>\<open>forEach\<close> over edge targets (or start nodes),
  which drops the boolean each call returns.
\<close>

fun evaluateNode :: "nat \<Rightarrow> rule \<Rightarrow> inputs \<Rightarrow> string \<Rightarrow> nat \<Rightarrow> eval_state \<Rightarrow> (bool \<times> eval_state) option"
  and forEach_evaluateNode :: "nat \<Rightarrow> rule \<Rightarrow> inputs \<Rightarrow> string list \<Rightarrow> nat \<Rightarrow> eval_state \<Rightarrow> eval_state option"
  where
  "evaluateNode 0 rule inputs nodeId depth st = None"
| "evaluateNode (Suc fuel) rule inputs nodeId depth st =
     (case find_node rule nodeId of
        None \<Rightarrow> Some (False, st)
      | Some node \<Rightarrow>
          if ntype node = ''condition'' then
            (let result = evaluateCondition (data node) inputs;
                 st1 = st\<lparr>evaluationPath := evaluationPath st @ [condition_line depth (data node) result]\<rparr>
             in if result \<and> length (outgoingEdges rule nodeId) > 0 then
                  map_option (Pair result)
                    (forEach_evaluateNode fuel rule inputs (map target (outgoingEdges rule nodeId)) (depth + 1) st1)
                else Some (result, st1))
          else if ntype node = ''operator'' then
            (let res = operatorResult rule inputs nodeId (data node);
                 st1 = (if operator_kind (data node) = ''AND'' \<or> operator_kind (data node) = ''OR'' then
                          st\<lparr>evaluationPath := evaluationPath st
                                @ [operator_line depth (operator_kind (data node)) res]\<rparr>
                        else st)
             in if res then
                  map_option (Pair res)
                    (forEach_evaluateNode fuel rule inputs (map target (outgoingEdges rule nodeId)) (depth + 1) st1)
                else Some (res, st1))
          else if ntype node = ''action'' then
            Some (True,
                  st\<lparr>actions := actions st @ [actionDisplay (data node)],
                     evaluationPath := evaluationPath st @ [action_line depth (actionDisplay (data node))],
                     matched := True\<rparr>)
          else Some (False, st))"
| "forEach_evaluateNode fuel rule inputs [] depth st = Some st"
| "forEach_evaluateNode fuel rule inputs (t # ts) depth st =
     (case evaluateNode fuel rule inputs t depth st of
        None \<Rightarrow> None
      | Some (r, st') \<Rightarrow> forEach_evaluateNode fuel rule inputs ts depth st')"

text \<open>Start nodes are the nodes whose id is no edge's target.\<close>

definition startNodes :: "rule \<Rightarrow> node list" where
  "startNodes rule =
     (let targetNodeIds = set (map target (edges rule))
      in filter (\<lambda>n. node_id n \<notin> targetNodeIds) (nodes rule))"

definition initial_state :: eval_state where
  "initial_state = \<lparr>actions = [], evaluationPath = [], matched = False\<rparr>"

definition evaluateRule :: "nat \<Rightarrow> rule \<Rightarrow> inputs \<Rightarrow> eval_state option" where
  "evaluateRule fuel rule inputs =
     forEach_evaluateNode fuel rule inputs (map node_id (startNodes rule)) 0 initial_state"

text \<open>
  The sequence of node ids on which \<^verbatim>\<open>evaluateNode\<close> is called, in call order: the
  node itself, then the calls made for its outgoing edges when it is a condition or an
  operator that evaluated to \<^verbatim>\<open>true\<close>.
\<close>

definition descends :: "rule \<Rightarrow> inputs \<Rightarrow> string \<Rightarrow> node \<Rightarrow> bool" where
  "descends rule inputs nodeId node =
     (if ntype node = ''condition'' then evaluateCondition (data node) inputs
      else if ntype node = ''operator'' then operatorResult rule inputs nodeId (data node)
      else False)"

fun calls :: "nat \<Rightarrow> rule \<Rightarrow> inputs \<Rightarrow> string \<Rightarrow> string list option"
  and forEach_calls :: "nat \<Rightarrow> rule \<Rightarrow> inputs \<Rightarrow> string list \<Rightarrow> string list option"
  where
  "calls 0 rule inputs nodeId = None"
| "calls (Suc fuel) rule inputs nodeId =
     (case find_node rule nodeId of
        None \<Rightarrow> Some [nodeId]
      | Some node \<Rightarrow>
          if descends rule inputs nodeId node then
            map_option (Cons nodeId) (forEach_calls fuel rule inputs (map target (outgoingEdges rule nodeId)))
          else Some [nodeId])"
| "forEach_calls fuel rule inputs [] = Some []"
| "forEach_calls fuel rule inputs (t # ts) =
     (case calls fuel rule inputs t of
        None \<Rightarrow> None
      | Some vs \<Rightarrow> map_option (append vs) (forEach_calls fuel rule inputs ts))"

definition rule_calls :: "nat \<Rightarrow> rule \<Rightarrow> inputs \<Rightarrow> string list option" where
  "rule_calls fuel rule inputs = forEach_calls fuel rule inputs (map node_id (startNodes rule))"

text \<open>The action nodes among the calls, one entry per call.\<close>

definition action_calls :: "rule \<Rightarrow> string list \<Rightarrow> node list" where
  "action_calls rule vs =
     filter (\<lambda>n. ntype n = ''action'') (List.map_filter (find_node rule) vs)"

definition is_executed_line :: "string \<Rightarrow> bool" where
  "is_executed_line l = suffix ''EXECUTED'' l"

text \<open>The graph of a rule's edges, as a relation on node ids.\<close>

definition edge_rel :: "rule \<Rightarrow> (string \<times> string) set" where
  "edge_rel rule = set (map (\<lambda>e. (source e, target e)) (edges rule))"

section \<open>The natural-language summary\<close>

text \<open>
  \<^verbatim>\<open>generateNaturalLanguage\<close> exists twice: in \<^verbatim>\<open>pages/Editor.tsx\<close> (38-88) and in
  \<^verbatim>\<open>components/editor/NaturalLanguagePreview.tsx\<close> (11-62). The two differ in the
  placeholder strings and in the preview replacing the underscores of an action type.
  The phrase table \<^verbatim>\<open>operatorMap\<close> is a plain object too:
  \<^verbatim>\<open>operatorMap[key] || "equals"\<close> is the phrase, else the inherited member (as a
  string), else \<^verbatim>\<open>"equals"\<close>.
\<close>

fun js_join :: "string \<Rightarrow> string list \<Rightarrow> string" where
  "js_join sep [] = []"
| "js_join sep [x] = x"
| "js_join sep (x # y # ys) = x @ sep @ js_join sep (y # ys)"

definition operatorMap :: "string \<rightharpoonup> string" where
  "operatorMap =
     [''equals'' \<mapsto> ''equals'',
      ''notEquals'' \<mapsto> ''does not equal'',
      ''greaterThan'' \<mapsto> ''is greater than'',
      ''lessThan'' \<mapsto> ''is less than'',
      ''greaterOrEqual'' \<mapsto> ''is greater than or equal to'',
      ''lessOrEqual'' \<mapsto> ''is less than or equal to'',
      ''contains'' \<mapsto> ''contains'']"

definition conditionText :: "node_data \<Rightarrow> string" where
  "conditionText d =
     (if truthy (field d) \<and> truthy (dvalue d) then
        the (field d) @ '' ''
          @ (case operatorMap (js_or_lit (operator d) ''equals'') of
               None \<Rightarrow>
                 if js_or_lit (operator d) ''equals'' \<in> set object_prototype_keys
                 then inherited_text (js_or_lit (operator d) ''equals'')
                 else ''equals''
             | Some operatorText \<Rightarrow> operatorText)
          @ '' '' @ the (dvalue d)
      else js_or_lit (label d) ''condition'')"

text \<open>
  \<^verbatim>\<open>operators.length > 0 ? operators[0].data : null\<close>, then
  the join operator is \<^verbatim>\<open>operatorData.operatorType || "AND"\<close> between two spaces, or \<^verbatim>\<open>" AND "\<close> without operator data.
\<close>

definition joinOperator :: "node list \<Rightarrow> string" where
  "joinOperator ns =
     (let operators = filter (\<lambda>n. ntype n = ''operator'') ns in
      case operators of
        [] \<Rightarrow> '' AND ''
      | first # rest \<Rightarrow> '' '' @ js_or_lit (operatorType (data first)) ''AND'' @ '' '')"

definition conditions_text :: "node list \<Rightarrow> string" where
  "conditions_text ns =
     (let conditions = filter (\<lambda>n. ntype n = ''condition'') ns in
      if length conditions > 0 then
        ''IF '' @ js_join (joinOperator ns) (map (\<lambda>c. conditionText (data c)) conditions)
      else [])"

definition actionText_editor :: "node_data \<Rightarrow> string" where
  "actionText_editor d =
     (if truthy (actionType d) \<and> truthy (target_name d) then
        the (actionType d) @ '' '' @ the (target_name d)
      else js_or_lit (label d) ''action'')"

definition actionText_preview :: "node_data \<Rightarrow> string" where
  "actionText_preview d =
     (if truthy (actionType d) \<and> truthy (target_name d) then
        replace_underscores (the (actionType d)) @ '' '' @ the (target_name d)
      else js_or_lit (label d) ''action'')"

definition actions_text :: "(node_data \<Rightarrow> string) \<Rightarrow> node list \<Rightarrow> string" where
  "actions_text actionText ns =
     (let acts = filter (\<lambda>n. ntype n = ''action'') ns in
      if length acts > 0 then
        '' THEN '' @ js_join '', '' (map (\<lambda>a. actionText (data a)) acts)
      else [])"

definition generateNaturalLanguage_editor :: "node list \<Rightarrow> edge list \<Rightarrow> string" where
  "generateNaturalLanguage_editor ns es =
     (if length ns = 0 then ''Empty rule''
      else
        (let text = conditions_text ns @ actions_text actionText_editor ns
         in if text = [] then ''Empty rule'' else text))"

definition generateNaturalLanguage_preview :: "node list \<Rightarrow> edge list \<Rightarrow> string" where
  "generateNaturalLanguage_preview ns es =
     (if length ns = 0 then ''Your rule will appear here as you build it...''
      else
        (let text = conditions_text ns @ actions_text actionText_preview ns
         in if text = [] then ''Add blocks to start building your rule...'' else text))"

section \<open>The validator\<close>

text \<open>
  \<^verbatim>\<open>validateRule\<close> (Editor.tsx 284-298) is a closure over the editor's \<^verbatim>\<open>nodes\<close> and
  \<^verbatim>\<open>edges\<close>, passed here as a rule; it reads the nodes only.
\<close>

record validation =
  isValid :: bool
  message :: string

definition validateRule :: "rule \<Rightarrow> validation" where
  "validateRule r =
     (if length (nodes r) = 0 then \<lparr>isValid = False, message = ''Add some blocks to validate''\<rparr>
      else
        (let hasCondition = list_ex (\<lambda>n. ntype n = ''condition'') (nodes r);
             hasAction = list_ex (\<lambda>n. ntype n = ''action'') (nodes r)
         in if \<not> hasCondition then
              \<lparr>isValid = False, message = ''Rule must have at least one condition''\<rparr>
            else if \<not> hasAction then
              \<lparr>isValid = False, message = ''Rule must have at least one action''\<rparr>
            else \<lparr>isValid = True, message = ''Rule validation passed!''\<rparr>))"

section \<open>Example rules\<close>

definition no_data :: node_data where
  "no_data = \<lparr>label = None, field = None, variable = None, operator = None, dvalue = None,
              operatorType = None, actionType = None, target_name = None, parameters = None\<rparr>"

definition condition_data :: "string \<Rightarrow> string \<Rightarrow> string \<Rightarrow> node_data" where
  "condition_data f op v = no_data\<lparr>field := Some f, operator := Some op, dvalue := Some v\<rparr>"

definition condition_node :: "string \<Rightarrow> string \<Rightarrow> string \<Rightarrow> string \<Rightarrow> node" where
  "condition_node i f op v = \<lparr>node_id = i, ntype = ''condition'', data = condition_data f op v\<rparr>"

definition operator_node :: "string \<Rightarrow> string \<Rightarrow> node" where
  "operator_node i k = \<lparr>node_id = i, ntype = ''operator'', data = no_data\<lparr>operatorType := Some k\<rparr>\<rparr>"

definition action_node :: "string \<Rightarrow> string \<Rightarrow> string \<Rightarrow> node" where
  "action_node i a t =
     \<lparr>node_id = i, ntype = ''action'', data = no_data\<lparr>actionType := Some a, target_name := Some t\<rparr>\<rparr>"

definition mk_edge :: "string \<Rightarrow> string \<Rightarrow> edge" where
  "mk_edge s t = \<lparr>edge_id = s @ ''-'' @ t, source = s, target = t\<rparr>"

definition disconnected_rule :: rule where
  "disconnected_rule =
     \<lparr>name = ''fan'',
      nodes = [condition_node ''c1'' ''temp'' ''>'' ''30'', action_node ''a1'' ''turn_on'' ''fan''],
      edges = []\<rparr>"

text \<open>A pot on the cooker: two conditions in a chain, then an action.\<close>

definition cooker_rule :: rule where
  "cooker_rule =
     \<lparr>name = ''cooker'',
      nodes = [condition_node ''c1'' ''pot_placed'' ''equals'' ''true'',
               condition_node ''c2'' ''cooker_time'' ''lessOrEqual'' ''60'',
               action_node ''a1'' ''turn_on'' ''cooker''],
      edges = [mk_edge ''c1'' ''c2'', mk_edge ''c2'' ''a1'']\<rparr>"

definition cooker_inputs :: inputs where
  "cooker_inputs = [''pot_placed'' \<mapsto> JStr ''true'', ''cooker_time'' \<mapsto> JNum (Fin 30)]"

text \<open>Two conditions feeding an AND operator, whose output is an operator again.\<close>

definition marks_rule :: rule where
  "marks_rule =
     \<lparr>name = ''marks'',
      nodes = [condition_node ''c1'' ''marks'' ''>='' ''20'',
               condition_node ''c2'' ''marks'' ''<='' ''30'',
               operator_node ''op1'' ''AND'',
               operator_node ''op2'' ''OR'',
               action_node ''a1'' ''send_notification'' ''teacher''],
      edges = [mk_edge ''c1'' ''op1'', mk_edge ''c2'' ''op1'', mk_edge ''op1'' ''op2'',
               mk_edge ''op2'' ''a1'']\<rparr>"

text \<open>A start condition leading into a condition with an edge to itself.\<close>

definition looping_rule :: rule where
  "looping_rule =
     \<lparr>name = ''loop'',
      nodes = [condition_node ''c0'' ''x'' ''equals'' ''1'', condition_node ''c1'' ''x'' ''equals'' ''1''],
      edges = [mk_edge ''c0'' ''c1'', mk_edge ''c1'' ''c1'']\<rparr>"

definition looping_inputs :: inputs where
  "looping_inputs = [''x'' \<mapsto> JStr ''1'']"

text \<open>Two conditions with two operators between and after them, listed in this order.\<close>

definition two_conditions :: "node list" where
  "two_conditions =
     [condition_node ''c1'' ''temp'' ''greaterThan'' ''30'', operator_node ''op1'' ''OR'',
      condition_node ''c2'' ''humidity'' ''lessThan'' ''40'', operator_node ''op2'' ''AND'',
      action_node ''a1'' ''turn_on'' ''fan'']"

section \<open>Notions used in the statements\<close>

text \<open>The operator strings that have a branch in \<^verbatim>\<open>evaluateCondition\<close>'s switch.\<close>

definition recognized_operators :: "string set" where
  "recognized_operators =
     {''greaterThan'', ''>'', ''lessThan'', ''<'', ''greaterOrEqual'', ''>='', ''lessOrEqual'', ''<='',
      ''equals'', ''=='', ''notEquals'', ''!='', ''==='', ''!==''}"

text \<open>What one call of \<^verbatim>\<open>evaluateNode\<close> writes for its own node, before any recursion.\<close>

definition own_effect :: "rule \<Rightarrow> inputs \<Rightarrow> string \<Rightarrow> nat \<Rightarrow> node \<Rightarrow> eval_state \<Rightarrow> eval_state" where
  "own_effect rule inputs nodeId depth node st =
     (if ntype node = ''condition'' then
        st\<lparr>evaluationPath := evaluationPath st
              @ [condition_line depth (data node) (evaluateCondition (data node) inputs)]\<rparr>
      else if ntype node = ''operator'' then
        (if operator_kind (data node) = ''AND'' \<or> operator_kind (data node) = ''OR'' then
           st\<lparr>evaluationPath := evaluationPath st
                 @ [operator_line depth (operator_kind (data node))
                      (operatorResult rule inputs nodeId (data node))]\<rparr>
         else st)
      else if ntype node = ''action'' then
        st\<lparr>actions := actions st @ [actionDisplay (data node)],
           evaluationPath := evaluationPath st @ [action_line depth (actionDisplay (data node))],
           matched := True\<rparr>
      else st)"

text \<open>
  State \<open>st'\<close> accounts for the calls \<open>vs\<close> made since state \<open>st\<close>: one description and
  one executed line per call on an action node, and the flag set when there was one.
\<close>

definition accounts :: "rule \<Rightarrow> eval_state \<Rightarrow> eval_state \<Rightarrow> string list \<Rightarrow> bool" where
  "accounts rule st st' vs =
     (actions st' = actions st @ map (\<lambda>n. actionDisplay (data n)) (action_calls rule vs)
      \<and> matched st' = (matched st \<or> action_calls rule vs \<noteq> [])
      \<and> length (filter is_executed_line (evaluationPath st'))
          = length (filter is_executed_line (evaluationPath st)) + length (action_calls rule vs))"

section \<open>Properties of the predicate evaluator\<close>

lemma num_lt_NaN_right [simp]: "num_lt a NaN = False"
  by (cases a) simp_all

lemmas condition_lookup_defs =
  condition_variable_def js_or_def truthy_def ToString_prop_def condition_data_def no_data_def
  js_get_def object_prototype_keys_def

lemmas number_parsing_defs =
  parseFloat_prop_def parseFloat_string_def StringToNumber_def trim_def is_ws_def
  parse_signed_def parse_unsigned_def is_digit_def radix_val_def digit_val_def digit_table_def
  parse_exponent_def scale10_def radix_literal_def is_radix_digit_def

text \<open>
  A variable that is neither a key of the input snapshot nor a name inherited from
  \<^verbatim>\<open>Object.prototype\<close> reads as \<^verbatim>\<open>undefined\<close>, and the condition is \<^verbatim>\<open>false\<close>
  whatever the operator and the value. The evaluator is a total function: no branch raises.
\<close>

lemma evaluateCondition_undefined_input:
  "inputs (condition_variable c) = None \<Longrightarrow> condition_variable c \<notin> set object_prototype_keys
     \<Longrightarrow> evaluateCondition c inputs = False"
  by (simp add: evaluateCondition_def js_get_def)

text \<open>
  Claim C3. A condition whose field is not a key of the input snapshot is to evaluate to
  \<^verbatim>\<open>false\<close> for every operator. The evaluator tests \<^verbatim>\<open>inputs[variable] === undefined\<close>,
  which also finds what the snapshot object inherits: with the field \<^verbatim>\<open>constructor\<close>
  and the empty snapshot, where the field is not a key, the input value is the function
  \<^verbatim>\<open>Object\<close>, and the condition \<^verbatim>\<open>constructor notEquals x\<close> evaluates to \<^verbatim>\<open>true\<close>.
\<close>

theorem evaluateCondition_inherited_key:
  "(Map.empty :: inputs) ''constructor'' = None
   \<and> evaluateCondition (condition_data ''constructor'' ''notEquals'' ''x'') Map.empty = True"
  by (simp add: evaluateCondition_def condition_lookup_defs inherited_text_def)





text \<open>
  Claim C6. A condition whose operator is \<^verbatim>\<open>contains\<close>, or any string (or nothing)
  outside the operators of the switch, evaluates to \<^verbatim>\<open>false\<close> for every input
  snapshot, so also when its variable has an input value. The result is the plain boolean
  \<^verbatim>\<open>false\<close> of a condition that does not hold.
\<close>

theorem evaluateCondition_unknown_operator:
  "(operator c \<notin> image Some recognized_operators \<longrightarrow> evaluateCondition c inputs = False)
   \<and> (operator c = Some ''contains'' \<longrightarrow> evaluateCondition c inputs = False)"
  by (auto simp: evaluateCondition_def recognized_operators_def split: option.splits)

theorem evaluateCondition_unknown_operator_witness:
  "operator (condition_data ''name'' ''contains'' ''a'') \<notin> image Some recognized_operators
   \<and> [''name'' \<mapsto> JStr ''abc''] (condition_variable (condition_data ''name'' ''contains'' ''a''))
       = Some (JStr ''abc'')
   \<and> evaluateCondition (condition_data ''name'' ''contains'' ''a'') [''name'' \<mapsto> JStr ''abc''] = False"
  using evaluateCondition_unknown_operator
          [of "condition_data ''name'' ''contains'' ''a''" "[''name'' \<mapsto> JStr ''abc'']"]
  by (simp add: condition_lookup_defs recognized_operators_def)

section \<open>Properties of the validator\<close>

text \<open>
  Claim C9. \<^verbatim>\<open>validateRule\<close> reports a rule invalid exactly when it has no node, no
  condition node or no action node, with the message of the first of these that applies;
  every other rule is valid. The edges play no part: a condition and an action that no
  edge connects validate.
\<close>

theorem validateRule_structural:
  "isValid (validateRule r) =
     (nodes r \<noteq> [] \<and> (\<exists>n \<in> set (nodes r). ntype n = ''condition'')
      \<and> (\<exists>n \<in> set (nodes r). ntype n = ''action''))
   \<and> (nodes r = [] \<longrightarrow> message (validateRule r) = ''Add some blocks to validate'')
   \<and> (nodes r \<noteq> [] \<and> (\<forall>n \<in> set (nodes r). ntype n \<noteq> ''condition'') \<longrightarrow>
        message (validateRule r) = ''Rule must have at least one condition'')
   \<and> (nodes r \<noteq> [] \<and> (\<exists>n \<in> set (nodes r). ntype n = ''condition'')
        \<and> (\<forall>n \<in> set (nodes r). ntype n \<noteq> ''action'') \<longrightarrow>
        message (validateRule r) = ''Rule must have at least one action'')
   \<and> validateRule (r\<lparr>edges := es\<rparr>) = validateRule r"
  by (auto simp: validateRule_def Let_def list_ex_iff)

theorem validateRule_structural_witness:
  "isValid (validateRule disconnected_rule)
   \<and> edges disconnected_rule = []
   \<and> \<not> isValid (validateRule (disconnected_rule\<lparr>nodes := []\<rparr>))
   \<and> message (validateRule (disconnected_rule\<lparr>nodes := []\<rparr>)) = ''Add some blocks to validate''
   \<and> message (validateRule (disconnected_rule\<lparr>nodes := [condition_node ''c1'' ''temp'' ''>'' ''30'']\<rparr>))
       = ''Rule must have at least one action''
   \<and> message (validateRule (disconnected_rule\<lparr>nodes := [action_node ''a1'' ''turn_on'' ''fan'']\<rparr>))
       = ''Rule must have at least one condition''"
  using validateRule_structural [of disconnected_rule]
        validateRule_structural [of "disconnected_rule\<lparr>nodes := []\<rparr>"]
        validateRule_structural [of "disconnected_rule\<lparr>nodes := [condition_node ''c1'' ''temp'' ''>'' ''30'']\<rparr>"]
        validateRule_structural [of "disconnected_rule\<lparr>nodes := [action_node ''a1'' ''turn_on'' ''fan'']\<rparr>"]
  by (simp add: disconnected_rule_def condition_node_def action_node_def)

section \<open>Properties of the graph walker\<close>

text \<open>One call of the walker: its own effect, then the calls for the outgoing edges.\<close>

lemma evaluateNode_Suc:
  "evaluateNode (Suc fuel) rule inputs nodeId depth st =
     (case find_node rule nodeId of
        None \<Rightarrow> Some (False, st)
      | Some node \<Rightarrow>
          if descends rule inputs nodeId node then
            map_option (Pair True)
              (forEach_evaluateNode fuel rule inputs (map target (outgoingEdges rule nodeId))
                 (depth + 1) (own_effect rule inputs nodeId depth node st))
          else Some (ntype node = ''action'', own_effect rule inputs nodeId depth node st))"
  by (auto simp: descends_def own_effect_def Let_def split: option.splits)

subsection \<open>Termination on acyclic rules\<close>

lemma forEach_terminates:
  assumes "\<forall>t \<in> set ts. \<exists>N. \<forall>fuel \<ge> N. \<forall>depth st. evaluateNode fuel rule inputs t depth st \<noteq> None"
  shows "\<exists>N. \<forall>fuel \<ge> N. \<forall>depth st. forEach_evaluateNode fuel rule inputs ts depth st \<noteq> None"
  using assms
proof (induction ts)
  case Nil
  then show ?case by simp
next
  case (Cons t ts)
  then obtain N1 where N1: "\<forall>fuel \<ge> N1. \<forall>depth st. evaluateNode fuel rule inputs t depth st \<noteq> None"
    by auto
  from Cons obtain N2 where N2: "\<forall>fuel \<ge> N2. \<forall>depth st. forEach_evaluateNode fuel rule inputs ts depth st \<noteq> None"
    by auto
  have "forEach_evaluateNode fuel rule inputs (t # ts) depth st \<noteq> None"
    if "fuel \<ge> max N1 N2" for fuel depth st
  proof -
    from that N1 obtain b st1 where "evaluateNode fuel rule inputs t depth st = Some (b, st1)"
      by (metis max.bounded_iff not_None_eq surj_pair)
    moreover from that N2 have "forEach_evaluateNode fuel rule inputs ts depth st1 \<noteq> None"
      by simp
    ultimately show ?thesis by (simp del: evaluateNode.simps)
  qed
  then show ?case by blast
qed

lemma targets_in_edge_rel:
  "t \<in> set (map target (outgoingEdges rule nodeId)) \<Longrightarrow> (nodeId, t) \<in> edge_rel rule"
  by (auto simp: outgoingEdges_def edge_rel_def)

lemma acyclic_node_terminates:
  assumes "acyclic (edge_rel rule)"
  shows "\<exists>N. \<forall>fuel \<ge> N. \<forall>depth st. evaluateNode fuel rule inputs nodeId depth st \<noteq> None"
proof -
  have "finite (edge_rel rule)" by (simp add: edge_rel_def)
  with assms have "wf ((edge_rel rule)\<inverse>)" by (rule finite_acyclic_wf_converse [rotated])
  then show ?thesis
  proof (induction nodeId rule: wf_induct_rule)
    case (less nodeId)
    let ?ts = "map target (outgoingEdges rule nodeId)"
    have "\<forall>t \<in> set ?ts. \<exists>N. \<forall>fuel \<ge> N. \<forall>depth st. evaluateNode fuel rule inputs t depth st \<noteq> None"
      using less targets_in_edge_rel by blast
    then obtain N where N: "\<forall>fuel \<ge> N. \<forall>depth st. forEach_evaluateNode fuel rule inputs ?ts depth st \<noteq> None"
      using forEach_terminates by blast
    have "evaluateNode fuel rule inputs nodeId depth st \<noteq> None" if "fuel \<ge> Suc N" for fuel depth st
    proof -
      from that obtain k where k: "fuel = Suc k" "k \<ge> N" by (cases fuel) auto
      with N show ?thesis
        unfolding k(1) evaluateNode_Suc by (auto split: option.splits)
    qed
    then show ?case by blast
  qed
qed

lemma acyclic_rule_terminates:
  assumes "acyclic (edge_rel rule)"
  shows "\<exists>N. \<forall>fuel \<ge> N. \<exists>r. evaluateRule fuel rule inputs = Some r"
proof -
  have "\<forall>t \<in> set (map node_id (startNodes rule)).
          \<exists>N. \<forall>fuel \<ge> N. \<forall>depth st. evaluateNode fuel rule inputs t depth st \<noteq> None"
    using acyclic_node_terminates [OF assms] by blast
  from forEach_terminates [OF this] show ?thesis
    unfolding evaluateRule_def by (metis not_None_eq)
qed

subsection \<open>The outputs account for the calls\<close>

lemma executed_action_line: "is_executed_line (action_line depth a)"
  by (simp add: is_executed_line_def action_line_def suffix_def)

lemma executed_condition_line: "\<not> is_executed_line (condition_line depth d b)"
  by (simp add: is_executed_line_def condition_line_def truth_text_def suffix_to_prefix)

lemma executed_operator_line: "\<not> is_executed_line (operator_line depth k b)"
  by (simp add: is_executed_line_def operator_line_def truth_text_def suffix_to_prefix)

lemma action_calls_append: "action_calls rule (vs @ ws) = action_calls rule vs @ action_calls rule ws"
  by (simp add: action_calls_def List.map_filter_def)

lemma action_calls_Nil: "action_calls rule [] = []"
  by (simp add: action_calls_def List.map_filter_def)

lemma action_calls_single:
  "action_calls rule [nodeId] =
     (case find_node rule nodeId of
        None \<Rightarrow> []
      | Some node \<Rightarrow> if ntype node = ''action'' then [node] else [])"
  by (simp add: action_calls_def List.map_filter_def split: option.splits)

lemma accounts_refl: "accounts rule st st []"
  by (simp add: accounts_def action_calls_Nil)

lemma accounts_trans:
  assumes "accounts rule st st1 vs" "accounts rule st1 st2 ws"
  shows "accounts rule st st2 (vs @ ws)"
  using assms unfolding accounts_def action_calls_append by auto

lemma accounts_own_effect:
  assumes "find_node rule nodeId = Some node"
  shows "accounts rule st (own_effect rule inputs nodeId depth node st) [nodeId]"
  using assms
  by (simp add: accounts_def own_effect_def action_calls_single executed_action_line
      executed_condition_line executed_operator_line)

lemma accounts_missing:
  assumes "find_node rule nodeId = None"
  shows "accounts rule st st [nodeId]"
  using assms by (simp add: accounts_def action_calls_single)

lemma walk_accounts:
  "(\<forall>nodeId depth st.
      case evaluateNode fuel rule inputs nodeId depth st of
        None \<Rightarrow> calls fuel rule inputs nodeId = None
      | Some (b, st') \<Rightarrow> (\<exists>vs. calls fuel rule inputs nodeId = Some vs \<and> accounts rule st st' vs))
   \<and> (\<forall>ts depth st.
      case forEach_evaluateNode fuel rule inputs ts depth st of
        None \<Rightarrow> forEach_calls fuel rule inputs ts = None
      | Some st' \<Rightarrow> (\<exists>vs. forEach_calls fuel rule inputs ts = Some vs \<and> accounts rule st st' vs))"
proof (induction fuel)
  case 0
  have "case forEach_evaluateNode 0 rule inputs ts depth st of
        None \<Rightarrow> forEach_calls 0 rule inputs ts = None
      | Some st' \<Rightarrow> (\<exists>vs. forEach_calls 0 rule inputs ts = Some vs \<and> accounts rule st st' vs)"
    for ts depth st
    by (cases ts) (simp_all add: accounts_refl)
  then show ?case by simp
next
  case (Suc k)
  have node: "case evaluateNode (Suc k) rule inputs nodeId depth st of
        None \<Rightarrow> calls (Suc k) rule inputs nodeId = None
      | Some (b, st') \<Rightarrow> (\<exists>vs. calls (Suc k) rule inputs nodeId = Some vs \<and> accounts rule st st' vs)"
    for nodeId depth st
  proof (cases "find_node rule nodeId")
    case None
    then show ?thesis
      by (simp add: evaluateNode_Suc accounts_missing del: evaluateNode.simps)
  next
    case (Some node)
    show ?thesis
    proof (cases "descends rule inputs nodeId node")
      case False
      with Some show ?thesis
        by (simp add: evaluateNode_Suc accounts_own_effect del: evaluateNode.simps)
    next
      case True
      let ?ts = "map target (outgoingEdges rule nodeId)"
      let ?st1 = "own_effect rule inputs nodeId depth node st"
      from Suc have IH: "case forEach_evaluateNode k rule inputs ?ts (depth + 1) ?st1 of
          None \<Rightarrow> forEach_calls k rule inputs ?ts = None
        | Some st' \<Rightarrow> (\<exists>vs. forEach_calls k rule inputs ?ts = Some vs \<and> accounts rule ?st1 st' vs)"
        by blast
      show ?thesis
      proof (cases "forEach_evaluateNode k rule inputs ?ts (depth + 1) ?st1")
        case None
        with IH Some True show ?thesis
          by (simp add: evaluateNode_Suc del: evaluateNode.simps)
      next
        case (Some st')
        with IH obtain vs where vs: "forEach_calls k rule inputs ?ts = Some vs" "accounts rule ?st1 st' vs"
          by auto
        have "accounts rule st st' ([nodeId] @ vs)"
          using accounts_trans [OF accounts_own_effect [OF \<open>find_node rule nodeId = Some node\<close>] vs(2)] .
        with Some vs True \<open>find_node rule nodeId = Some node\<close> show ?thesis
          by (simp add: evaluateNode_Suc del: evaluateNode.simps)
      qed
    qed
  qed
  have "case forEach_evaluateNode (Suc k) rule inputs ts depth st of
        None \<Rightarrow> forEach_calls (Suc k) rule inputs ts = None
      | Some st' \<Rightarrow> (\<exists>vs. forEach_calls (Suc k) rule inputs ts = Some vs \<and> accounts rule st st' vs)"
    for ts depth st
  proof (induction ts arbitrary: st)
    case Nil
    then show ?case by (simp add: accounts_refl)
  next
    case (Cons t ts)
    show ?case
    proof (cases "evaluateNode (Suc k) rule inputs t depth st")
      case None
      with node [where nodeId=t and depth=depth and st=st] show ?thesis
        by (simp del: evaluateNode.simps)
    next
      case (Some a)
      obtain b st1 where a: "a = (b, st1)" by (cases a)
      with Some node [where nodeId=t and depth=depth and st=st] obtain vs where
        vs: "calls (Suc k) rule inputs t = Some vs" "accounts rule st st1 vs"
        by (auto simp del: evaluateNode.simps)
      show ?thesis
      proof (cases "forEach_evaluateNode (Suc k) rule inputs ts depth st1")
        case None
        with Cons [where st=st1] Some a vs show ?thesis
          by (simp del: evaluateNode.simps)
      next
        case (Some st2)
        with Cons [where st=st1] obtain ws where
          ws: "forEach_calls (Suc k) rule inputs ts = Some ws" "accounts rule st1 st2 ws"
          by auto
        from accounts_trans [OF vs(2) ws(2)] Some \<open>evaluateNode (Suc k) rule inputs t depth st = Some a\<close> a vs ws
        show ?thesis
          by (simp del: evaluateNode.simps)
      qed
    qed
  qed
  with node show ?case by blast
qed

lemma find_distinct:
  assumes "distinct (map f xs)" "x \<in> set xs"
  shows "find (\<lambda>n. f n = f x) xs = Some x"
  using assms by (induction xs) (auto simp: rev_image_eqI)

lemma calls_head:
  assumes "calls fuel rule inputs t = Some vs"
  shows "t \<in> set vs"
  using assms by (cases fuel) (auto split: option.splits if_splits)

lemma forEach_calls_contains:
  assumes "forEach_calls fuel rule inputs ts = Some vs"
  shows "set ts \<subseteq> set vs"
  using assms
proof (induction ts arbitrary: vs)
  case Nil
  then show ?case by simp
next
  case (Cons t ts)
  then show ?case
    by (auto simp del: calls.simps split: option.splits dest: calls_head)
qed

lemma action_calls_iff:
  "n \<in> set (action_calls rule vs) \<longleftrightarrow> (\<exists>i \<in> set vs. find_node rule i = Some n \<and> ntype n = ''action'')"
  by (force simp: action_calls_def List.map_filter_def image_iff)

lemma evaluateRule_accounts:
  assumes "evaluateRule fuel rule inputs = Some r"
  shows "\<exists>vs. rule_calls fuel rule inputs = Some vs \<and> accounts rule initial_state r vs"
proof -
  from walk_accounts [of fuel rule inputs]
  have "case forEach_evaluateNode fuel rule inputs (map node_id (startNodes rule)) 0 initial_state of
          None \<Rightarrow> forEach_calls fuel rule inputs (map node_id (startNodes rule)) = None
        | Some st' \<Rightarrow> (\<exists>vs. forEach_calls fuel rule inputs (map node_id (startNodes rule)) = Some vs
                          \<and> accounts rule initial_state st' vs)"
    by blast
  with assms show ?thesis
    by (simp add: evaluateRule_def rule_calls_def)
qed

lemma action_node_fires:
  assumes "find_node rule nodeId = Some node" "ntype node = ''action''"
  shows "evaluateNode (Suc fuel) rule inputs nodeId depth st
           = Some (True, st\<lparr>actions := actions st @ [actionDisplay (data node)],
                             evaluationPath := evaluationPath st @ [action_line depth (actionDisplay (data node))],
                             matched := True\<rparr>)"
  using assms by simp

lemma no_edges_node_terminates:
  assumes "edges rule = []"
  shows "evaluateNode (Suc k) rule inputs nodeId depth st \<noteq> None"
  using assms unfolding evaluateNode_Suc
  by (auto simp: outgoingEdges_def split: option.splits)

lemma no_edges_forEach_terminates:
  assumes "edges rule = []"
  shows "forEach_evaluateNode (Suc k) rule inputs ts depth st \<noteq> None"
proof (induction ts arbitrary: st)
  case Nil
  then show ?case by simp
next
  case (Cons t ts)
  from no_edges_node_terminates [OF assms, of k inputs t depth st]
  obtain b st1 where "evaluateNode (Suc k) rule inputs t depth st = Some (b, st1)"
    by (metis not_None_eq surj_pair)
  with Cons [of st1] show ?case
    by (simp del: evaluateNode.simps)
qed

lemma unconnected_action_aux:
  assumes "a \<in> set (nodes rule)" "ntype a = ''action''"
    and "node_id a \<notin> set (map target (edges rule))"
    and "distinct (map node_id (nodes rule))"
    and "evaluateRule fuel rule inputs = Some r"
  shows "matched r \<and> actionDisplay (data a) \<in> set (actions r)"
proof -
  from assms(5) obtain vs where vs: "rule_calls fuel rule inputs = Some vs" "accounts rule initial_state r vs"
    using evaluateRule_accounts by blast
  have "a \<in> set (startNodes rule)"
    using assms(1,3) by (simp add: startNodes_def)
  then have "node_id a \<in> set vs"
    using forEach_calls_contains [OF vs(1) [unfolded rule_calls_def]] by auto
  moreover have "find_node rule (node_id a) = Some a"
    unfolding find_node_def using find_distinct [OF assms(4,1)] .
  ultimately have "a \<in> set (action_calls rule vs)"
    using assms(2) action_calls_iff by blast
  with vs(2) show ?thesis
    by (auto simp: accounts_def initial_state_def)
qed

subsection \<open>The example rules\<close>

lemmas example_defs = cooker_rule_def cooker_inputs_def marks_rule_def looping_rule_def looping_inputs_def
  disconnected_rule_def condition_node_def operator_node_def action_node_def mk_edge_def
  condition_data_def no_data_def

lemma acyclic_no_edges: "acyclic ({} :: (string \<times> string) set)"
  by (simp add: acyclic_def)

lemma cooker_acyclic: "acyclic (edge_rel cooker_rule)"
  by (simp add: edge_rel_def example_defs acyclic_insert rtrancl_insert acyclic_no_edges)

lemma marks_acyclic: "acyclic (edge_rel marks_rule)"
  by (simp add: edge_rel_def example_defs acyclic_insert rtrancl_insert acyclic_no_edges)

lemma looping_node_diverges:
  "evaluateNode fuel looping_rule looping_inputs ''c1'' depth st = None"
proof (induction fuel arbitrary: depth st)
  case 0
  then show ?case by simp
next
  case (Suc k)
  have f: "find_node looping_rule ''c1'' = Some (condition_node ''c1'' ''x'' ''equals'' ''1'')"
    by (simp add: find_node_def example_defs)
  have d: "descends looping_rule looping_inputs ''c1'' (condition_node ''c1'' ''x'' ''equals'' ''1'')"
    by (simp add: descends_def example_defs evaluateCondition_def condition_lookup_defs)
  have o: "map target (outgoingEdges looping_rule ''c1'') = [''c1'']"
    by (simp add: outgoingEdges_def example_defs)
  show ?case
    unfolding evaluateNode_Suc by (simp add: f d o Suc del: evaluateNode.simps)
qed

lemma looping_rule_diverges: "evaluateRule fuel looping_rule looping_inputs = None"
proof (cases fuel)
  case 0
  then show ?thesis by (simp add: evaluateRule_def startNodes_def example_defs)
next
  case (Suc k)
  have s: "map node_id (startNodes looping_rule) = [''c0'']"
    by (simp add: startNodes_def example_defs)
  have f: "find_node looping_rule ''c0'' = Some (condition_node ''c0'' ''x'' ''equals'' ''1'')"
    by (simp add: find_node_def example_defs)
  have d: "descends looping_rule looping_inputs ''c0'' (condition_node ''c0'' ''x'' ''equals'' ''1'')"
    by (simp add: descends_def example_defs evaluateCondition_def condition_lookup_defs)
  have o: "map target (outgoingEdges looping_rule ''c0'') = [''c1'']"
    by (simp add: outgoingEdges_def example_defs)
  show ?thesis
    unfolding evaluateRule_def s Suc
    by (simp add: evaluateNode_Suc f d o looping_node_diverges del: evaluateNode.simps)
qed

lemma looping_rule_cyclic: "\<not> acyclic (edge_rel looping_rule)"
  by (auto simp: acyclic_def edge_rel_def example_defs intro!: exI [of _ "''c1''"])

lemma cooker_run:
  "evaluateRule 3 cooker_rule cooker_inputs
     = Some \<lparr>actions = [''turn on: cooker''],
             evaluationPath =
               [condition_line 0 (condition_data ''pot_placed'' ''equals'' ''true'') True,
                condition_line 1 (condition_data ''cooker_time'' ''lessOrEqual'' ''60'') True,
                action_line 2 ''turn on: cooker''],
             matched = True\<rparr>"
  by code_simp

lemma operator_node_result:
  assumes "find_node rule nodeId = Some node" "ntype node = ''operator''"
    and "evaluateNode fuel rule inputs nodeId depth st = Some (b, st')"
  shows "b = operatorResult rule inputs nodeId (data node)"
proof (cases fuel)
  case 0
  with assms show ?thesis by simp
next
  case (Suc k)
  with assms show ?thesis
    unfolding Suc evaluateNode_Suc
    by (auto simp: descends_def split: if_splits)
qed

subsection \<open>The claims about the walker\<close>

text \<open>
  Claim C1. On an acyclic rule \<^verbatim>\<open>evaluateRule\<close> returns (with enough fuel), and whenever
  it returns: \<^verbatim>\<open>matched\<close> is true exactly when some call of the traversal was on
  an action node; \<^verbatim>\<open>actions\<close> holds one description for every call on an action node,
  in call order over all branches and all start nodes; and the trace holds as many
  EXECUTED lines. A call on an action node appends its description and its EXECUTED line
  and sets the flag, whatever the inputs are.
\<close>

theorem evaluateRule_matched_iff_action_called:
  "(acyclic (edge_rel rule) \<longrightarrow> (\<exists>N. \<forall>fuel \<ge> N. \<exists>r. evaluateRule fuel rule inputs = Some r))
   \<and> (\<forall>fuel r. evaluateRule fuel rule inputs = Some r \<longrightarrow>
         (\<exists>vs. rule_calls fuel rule inputs = Some vs
            \<and> matched r = (\<exists>i \<in> set vs. \<exists>n. find_node rule i = Some n \<and> ntype n = ''action'')
            \<and> actions r = map (\<lambda>n. actionDisplay (data n)) (action_calls rule vs)
            \<and> length (filter is_executed_line (evaluationPath r)) = length (action_calls rule vs)))
   \<and> (\<forall>fuel nodeId depth st node.
         find_node rule nodeId = Some node \<and> ntype node = ''action'' \<longrightarrow>
           evaluateNode (Suc fuel) rule inputs nodeId depth st
             = Some (True, st\<lparr>actions := actions st @ [actionDisplay (data node)],
                               evaluationPath := evaluationPath st
                                 @ [action_line depth (actionDisplay (data node))],
                               matched := True\<rparr>)
           \<and> is_executed_line (action_line depth (actionDisplay (data node))))"
proof (intro conjI allI impI)
  assume "acyclic (edge_rel rule)"
  then show "\<exists>N. \<forall>fuel \<ge> N. \<exists>r. evaluateRule fuel rule inputs = Some r"
    by (rule acyclic_rule_terminates)
next
  fix fuel r
  assume "evaluateRule fuel rule inputs = Some r"
  then obtain vs where vs: "rule_calls fuel rule inputs = Some vs" "accounts rule initial_state r vs"
    using evaluateRule_accounts by blast
  have "(action_calls rule vs \<noteq> []) = (\<exists>i \<in> set vs. \<exists>n. find_node rule i = Some n \<and> ntype n = ''action'')"
    using action_calls_iff [of _ rule vs] by (metis ex_in_conv set_empty)
  with vs show "\<exists>vs. rule_calls fuel rule inputs = Some vs
            \<and> matched r = (\<exists>i \<in> set vs. \<exists>n. find_node rule i = Some n \<and> ntype n = ''action'')
            \<and> actions r = map (\<lambda>n. actionDisplay (data n)) (action_calls rule vs)
            \<and> length (filter is_executed_line (evaluationPath r)) = length (action_calls rule vs)"
    by (simp add: accounts_def initial_state_def)
next
  fix fuel nodeId depth st node
  assume "find_node rule nodeId = Some node \<and> ntype node = ''action''"
  then show "evaluateNode (Suc fuel) rule inputs nodeId depth st
             = Some (True, st\<lparr>actions := actions st @ [actionDisplay (data node)],
                               evaluationPath := evaluationPath st
                                 @ [action_line depth (actionDisplay (data node))],
                               matched := True\<rparr>)"
    using action_node_fires by blast
next
  fix depth node
  show "is_executed_line (action_line depth (actionDisplay (data node)))"
    by (rule executed_action_line)
qed

theorem evaluateRule_matched_iff_action_called_witness:
  "acyclic (edge_rel cooker_rule)
   \<and> (\<exists>r. evaluateRule 3 cooker_rule cooker_inputs = Some r \<and> matched r
          \<and> actions r = [''turn on: cooker''] \<and> length (evaluationPath r) = 3)
   \<and> rule_calls 3 cooker_rule cooker_inputs = Some [''c1'', ''c2'', ''a1'']
   \<and> (\<exists>r. evaluateRule 3 cooker_rule (cooker_inputs(''pot_placed'' \<mapsto> JStr ''false'')) = Some r
          \<and> \<not> matched r \<and> actions r = [] \<and> length (evaluationPath r) = 1)"
proof -
  have c: "rule_calls 3 cooker_rule cooker_inputs = Some [''c1'', ''c2'', ''a1'']"
    by code_simp
  have f: "evaluateRule 3 cooker_rule (cooker_inputs(''pot_placed'' \<mapsto> JStr ''false''))
     = Some \<lparr>actions = [],
             evaluationPath = [condition_line 0 (condition_data ''pot_placed'' ''equals'' ''true'') False],
             matched = False\<rparr>"
    by code_simp
  show ?thesis
    using evaluateRule_matched_iff_action_called [of cooker_rule cooker_inputs] cooker_acyclic
    by (simp add: cooker_run c f)
qed

text \<open>
  Claim C2. A call of the walker on an operator node returns \<^verbatim>\<open>operatorResult\<close>, and on
  an acyclic rule it does return. The operands are the sources of the edges into the
  node; under AND the result is true iff every operand is true, under OR iff some operand
  is; an operand is true iff it is a condition node that \<^verbatim>\<open>evaluateCondition\<close> finds
  true, so an operand of any other kind counts as false and nothing is evaluated behind it.
\<close>

theorem operator_node_semantics:
  assumes "find_node rule nodeId = Some node" "ntype node = ''operator''"
  shows "(\<forall>fuel depth st b st'. evaluateNode fuel rule inputs nodeId depth st = Some (b, st')
            \<longrightarrow> b = operatorResult rule inputs nodeId (data node))
    \<and> (acyclic (edge_rel rule) \<longrightarrow>
          (\<exists>N. \<forall>fuel \<ge> N. \<forall>depth st. \<exists>st'.
             evaluateNode fuel rule inputs nodeId depth st
               = Some (operatorResult rule inputs nodeId (data node), st')))
    \<and> set (connectedSources rule nodeId) = {source e | e. e \<in> set (edges rule) \<and> target e = nodeId}
    \<and> (operator_kind (data node) = ''AND'' \<longrightarrow>
          operatorResult rule inputs nodeId (data node)
            = (\<forall>s \<in> set (connectedSources rule nodeId). operand_result rule inputs s))
    \<and> (operator_kind (data node) = ''OR'' \<longrightarrow>
          operatorResult rule inputs nodeId (data node)
            = (\<exists>s \<in> set (connectedSources rule nodeId). operand_result rule inputs s))
    \<and> (\<forall>k. operatorType (data node) = Some k \<and> k \<noteq> [] \<longrightarrow> operator_kind (data node) = k)
    \<and> (\<forall>s. operand_result rule inputs s
            = (\<exists>n. find_node rule s = Some n \<and> ntype n = ''condition''
                   \<and> evaluateCondition (data n) inputs))"
proof (intro conjI)
  show "\<forall>fuel depth st b st'. evaluateNode fuel rule inputs nodeId depth st = Some (b, st')
            \<longrightarrow> b = operatorResult rule inputs nodeId (data node)"
    using operator_node_result [OF assms] by blast
  show "acyclic (edge_rel rule) \<longrightarrow>
          (\<exists>N. \<forall>fuel \<ge> N. \<forall>depth st. \<exists>st'.
             evaluateNode fuel rule inputs nodeId depth st
               = Some (operatorResult rule inputs nodeId (data node), st'))"
  proof
    assume "acyclic (edge_rel rule)"
    then obtain N where N: "\<forall>fuel \<ge> N. \<forall>depth st. evaluateNode fuel rule inputs nodeId depth st \<noteq> None"
      using acyclic_node_terminates by blast
    have "\<exists>st'. evaluateNode fuel rule inputs nodeId depth st
               = Some (operatorResult rule inputs nodeId (data node), st')"
      if "fuel \<ge> N" for fuel depth st
    proof -
      from N that obtain b st' where r: "evaluateNode fuel rule inputs nodeId depth st = Some (b, st')"
        by (metis not_None_eq surj_pair)
      with operator_node_result [OF assms r] show ?thesis by blast
    qed
    then show "\<exists>N. \<forall>fuel \<ge> N. \<forall>depth st. \<exists>st'.
             evaluateNode fuel rule inputs nodeId depth st
               = Some (operatorResult rule inputs nodeId (data node), st')"
      by blast
  qed
  show "set (connectedSources rule nodeId) = {source e | e. e \<in> set (edges rule) \<and> target e = nodeId}"
    by (auto simp: connectedSources_def)
  show "operator_kind (data node) = ''AND'' \<longrightarrow>
          operatorResult rule inputs nodeId (data node)
            = (\<forall>s \<in> set (connectedSources rule nodeId). operand_result rule inputs s)"
    by (simp add: operatorResult_def list_all_iff)
  show "operator_kind (data node) = ''OR'' \<longrightarrow>
          operatorResult rule inputs nodeId (data node)
            = (\<exists>s \<in> set (connectedSources rule nodeId). operand_result rule inputs s)"
    by (simp add: operatorResult_def list_ex_iff)
  show "\<forall>k. operatorType (data node) = Some k \<and> k \<noteq> [] \<longrightarrow> operator_kind (data node) = k"
    by (simp add: operator_kind_def js_or_def truthy_def js_or_lit_def)
  show "\<forall>s. operand_result rule inputs s
            = (\<exists>n. find_node rule s = Some n \<and> ntype n = ''condition''
                   \<and> evaluateCondition (data n) inputs)"
    by (auto simp: operand_result_def split: option.splits)
qed

theorem operator_node_semantics_witness:
  "find_node marks_rule ''op1'' = Some (operator_node ''op1'' ''AND'')
   \<and> ntype (operator_node ''op1'' ''AND'') = ''operator''
   \<and> operator_kind (data (operator_node ''op1'' ''AND'')) = ''AND''
   \<and> set (connectedSources marks_rule ''op1'') = {''c1'', ''c2''}
   \<and> operatorResult marks_rule [''marks'' \<mapsto> JStr ''25''] ''op1'' (data (operator_node ''op1'' ''AND''))
   \<and> \<not> operatorResult marks_rule [''marks'' \<mapsto> JStr ''10''] ''op1'' (data (operator_node ''op1'' ''AND''))
   \<and> find_node marks_rule ''op2'' = Some (operator_node ''op2'' ''OR'')
   \<and> set (connectedSources marks_rule ''op2'') = {''op1''}
   \<and> \<not> operatorResult marks_rule [''marks'' \<mapsto> JStr ''25''] ''op2'' (data (operator_node ''op2'' ''OR''))"
proof -
  have f: "find_node marks_rule ''op1'' = Some (operator_node ''op1'' ''AND'')"
    and f2: "find_node marks_rule ''op2'' = Some (operator_node ''op2'' ''OR'')"
    by (simp_all add: find_node_def example_defs)
  have t: "ntype (operator_node ''op1'' ''AND'') = ''operator''"
    and t2: "ntype (operator_node ''op2'' ''OR'') = ''operator''"
    by (simp_all add: operator_node_def)
  have s: "connectedSources marks_rule ''op1'' = [''c1'', ''c2'']"
    and s2: "connectedSources marks_rule ''op2'' = [''op1'']"
    by (simp_all add: connectedSources_def example_defs)
  have c1: "find_node marks_rule ''c1'' = Some (condition_node ''c1'' ''marks'' ''>='' ''20'')"
    and c2: "find_node marks_rule ''c2'' = Some (condition_node ''c2'' ''marks'' ''<='' ''30'')"
    by (simp_all add: find_node_def example_defs)
  have e: "evaluateCondition (data (condition_node ''c1'' ''marks'' ''>='' ''20'')) [''marks'' \<mapsto> JStr ''25'']"
    "evaluateCondition (data (condition_node ''c2'' ''marks'' ''<='' ''30'')) [''marks'' \<mapsto> JStr ''25'']"
    "\<not> evaluateCondition (data (condition_node ''c1'' ''marks'' ''>='' ''20'')) [''marks'' \<mapsto> JStr ''10'']"
    by (simp_all add: evaluateCondition_def condition_lookup_defs condition_node_def
        number_parsing_defs num_ge_def num_le_def)
  have k: "operator_kind (data (operator_node ''op1'' ''AND'')) = ''AND''"
    and k2: "operator_kind (data (operator_node ''op2'' ''OR'')) = ''OR''"
    by (simp_all add: operator_kind_def operator_node_def no_data_def js_or_def truthy_def js_or_lit_def)
  have o: "operand_result marks_rule [''marks'' \<mapsto> JStr ''25''] ''c1''"
    "operand_result marks_rule [''marks'' \<mapsto> JStr ''25''] ''c2''"
    "\<not> operand_result marks_rule [''marks'' \<mapsto> JStr ''10''] ''c1''"
    using e by (simp_all add: operand_result_def c1 c2 condition_node_def)
  have o2: "\<not> operand_result marks_rule [''marks'' \<mapsto> JStr ''25''] ''op1''"
    by (simp add: operand_result_def f t)
  have "operatorResult marks_rule [''marks'' \<mapsto> JStr ''25''] ''op1'' (data (operator_node ''op1'' ''AND''))
          = (\<forall>s \<in> set (connectedSources marks_rule ''op1'').
               operand_result marks_rule [''marks'' \<mapsto> JStr ''25''] s)"
    using operator_node_semantics [OF f t, of "[''marks'' \<mapsto> JStr ''25'']"] k by blast
  moreover
  have "operatorResult marks_rule [''marks'' \<mapsto> JStr ''10''] ''op1'' (data (operator_node ''op1'' ''AND''))
          = (\<forall>s \<in> set (connectedSources marks_rule ''op1'').
               operand_result marks_rule [''marks'' \<mapsto> JStr ''10''] s)"
    using operator_node_semantics [OF f t, of "[''marks'' \<mapsto> JStr ''10'']"] k by blast
  moreover
  have "operatorResult marks_rule [''marks'' \<mapsto> JStr ''25''] ''op2'' (data (operator_node ''op2'' ''OR''))
          = (\<exists>s \<in> set (connectedSources marks_rule ''op2'').
               operand_result marks_rule [''marks'' \<mapsto> JStr ''25''] s)"
    using operator_node_semantics [OF f2 t2, of "[''marks'' \<mapsto> JStr ''25'']"] k2 by blast
  ultimately show ?thesis
    by (simp add: f f2 t s s2 k o o2)
qed

text \<open>
  Claim C7. On a rule whose edges form an acyclic graph \<^verbatim>\<open>evaluateRule\<close> returns for
  every input snapshot: from some amount of fuel on, the walk ends. The walker has no
  guard of its own: on the looping rule, whose graph has a cycle behind a true condition,
  no amount of fuel is enough.
\<close>

theorem evaluateRule_terminates_on_acyclic:
  "(acyclic (edge_rel rule) \<longrightarrow> (\<exists>N. \<forall>fuel \<ge> N. \<exists>r. evaluateRule fuel rule inputs = Some r))
   \<and> \<not> acyclic (edge_rel looping_rule)
   \<and> (\<forall>fuel. evaluateRule fuel looping_rule looping_inputs = None)"
  using acyclic_rule_terminates looping_rule_diverges looping_rule_cyclic by blast

theorem evaluateRule_terminates_on_acyclic_witness:
  "acyclic (edge_rel cooker_rule)
   \<and> (\<exists>N. \<forall>fuel \<ge> N. \<exists>r. evaluateRule fuel cooker_rule cooker_inputs = Some r)"
  using evaluateRule_terminates_on_acyclic [of cooker_rule cooker_inputs] cooker_acyclic by simp

text \<open>
  Claim C10. In a rule with unique node ids, an action node that no edge targets is a
  start node, and every evaluation that returns has \<^verbatim>\<open>matched = true\<close> and that
  action's description among \<^verbatim>\<open>actions\<close>, whatever the inputs and the conditions'
  results; on an acyclic rule the evaluation returns. A rule without edges that has a
  condition and such an action is valid for \<^verbatim>\<open>validateRule\<close> and matches on every
  evaluation.
\<close>

theorem unconnected_action_always_fires:
  assumes "a \<in> set (nodes rule)" "ntype a = ''action''"
    and "node_id a \<notin> set (map target (edges rule))"
    and "distinct (map node_id (nodes rule))"
  shows "a \<in> set (startNodes rule)
    \<and> (\<forall>fuel r. evaluateRule fuel rule inputs = Some r
          \<longrightarrow> matched r \<and> actionDisplay (data a) \<in> set (actions r))
    \<and> (acyclic (edge_rel rule) \<longrightarrow>
          (\<exists>N. \<forall>fuel \<ge> N. \<exists>r. evaluateRule fuel rule inputs = Some r
                  \<and> matched r \<and> actionDisplay (data a) \<in> set (actions r)))
    \<and> (edges rule = [] \<and> (\<exists>c \<in> set (nodes rule). ntype c = ''condition'') \<longrightarrow>
          isValid (validateRule rule)
          \<and> (\<forall>fuel > 0. \<exists>r. evaluateRule fuel rule inputs = Some r \<and> matched r))"
proof (intro conjI impI)
  show "a \<in> set (startNodes rule)"
    using assms(1,3) by (simp add: startNodes_def)
  show fires: "\<forall>fuel r. evaluateRule fuel rule inputs = Some r
          \<longrightarrow> matched r \<and> actionDisplay (data a) \<in> set (actions r)"
    using unconnected_action_aux [OF assms] by blast
  show "\<exists>N. \<forall>fuel \<ge> N. \<exists>r. evaluateRule fuel rule inputs = Some r
                  \<and> matched r \<and> actionDisplay (data a) \<in> set (actions r)"
    if "acyclic (edge_rel rule)"
    using acyclic_rule_terminates [OF that, of inputs] fires by meson
  show "isValid (validateRule rule)"
    if "edges rule = [] \<and> (\<exists>c \<in> set (nodes rule). ntype c = ''condition'')"
    using that assms(1,2) by (auto simp: validateRule_def Let_def list_ex_iff)
  show "\<forall>fuel > 0. \<exists>r. evaluateRule fuel rule inputs = Some r \<and> matched r"
    if "edges rule = [] \<and> (\<exists>c \<in> set (nodes rule). ntype c = ''condition'')"
  proof (intro allI impI)
    fix fuel :: nat
    assume "0 < fuel"
    then obtain k where k: "fuel = Suc k" by (cases fuel) auto
    from that have "edges rule = []" by simp
    from no_edges_forEach_terminates [OF this, of k inputs "map node_id (startNodes rule)" 0 initial_state]
    obtain r where "evaluateRule fuel rule inputs = Some r"
      unfolding evaluateRule_def k by blast
    with fires show "\<exists>r. evaluateRule fuel rule inputs = Some r \<and> matched r"
      by blast
  qed
qed

theorem unconnected_action_always_fires_witness:
  "action_node ''a1'' ''turn_on'' ''fan'' \<in> set (nodes disconnected_rule)
   \<and> ntype (action_node ''a1'' ''turn_on'' ''fan'') = ''action''
   \<and> node_id (action_node ''a1'' ''turn_on'' ''fan'') \<notin> set (map target (edges disconnected_rule))
   \<and> distinct (map node_id (nodes disconnected_rule))
   \<and> \<not> evaluateCondition (condition_data ''temp'' ''>'' ''30'') Map.empty
   \<and> isValid (validateRule disconnected_rule)
   \<and> (\<exists>r. evaluateRule 1 disconnected_rule Map.empty = Some r \<and> matched r
          \<and> actionDisplay (data (action_node ''a1'' ''turn_on'' ''fan'')) \<in> set (actions r))"
proof -
  have h: "action_node ''a1'' ''turn_on'' ''fan'' \<in> set (nodes disconnected_rule)"
    "ntype (action_node ''a1'' ''turn_on'' ''fan'') = ''action''"
    "node_id (action_node ''a1'' ''turn_on'' ''fan'') \<notin> set (map target (edges disconnected_rule))"
    "distinct (map node_id (nodes disconnected_rule))"
    by (simp_all add: example_defs)
  have e: "edges disconnected_rule = []
           \<and> (\<exists>c \<in> set (nodes disconnected_rule). ntype c = ''condition'')"
    by (simp add: example_defs)
  have n: "\<not> evaluateCondition (condition_data ''temp'' ''>'' ''30'') Map.empty"
    by (simp add: evaluateCondition_def condition_lookup_defs)
  from unconnected_action_always_fires [OF h, of Map.empty] e
  have "isValid (validateRule disconnected_rule)"
    and "\<forall>fuel > 0. \<exists>r. evaluateRule fuel disconnected_rule Map.empty = Some r \<and> matched r"
    and "\<forall>fuel r. evaluateRule fuel disconnected_rule Map.empty = Some r
          \<longrightarrow> matched r \<and> actionDisplay (data (action_node ''a1'' ''turn_on'' ''fan'')) \<in> set (actions r)"
    by blast+
  then show ?thesis
    using h n by (metis zero_less_one)
qed

section \<open>Properties of the natural-language summary\<close>

text \<open>
  Claim C8. With two or more condition nodes, both versions of the summary are
  \<^verbatim>\<open>"IF "\<close>, the condition phrases joined by the join operator, and the action part.
  The join operator is the \<^verbatim>\<open>operatorType\<close> of the first operator node in array order
  (\<^verbatim>\<open>AND\<close> when that node has none), or \<^verbatim>\<open>AND\<close> when the array has no operator node,
  between two spaces. It is one operator for the whole summary, and the edges do not
  change the summary.
\<close>

theorem generateNaturalLanguage_join_operator:
  assumes "2 \<le> length (filter (\<lambda>n. ntype n = ''condition'') ns)"
  shows "generateNaturalLanguage_editor ns es
           = ''IF '' @ js_join (joinOperator ns)
                         (map (\<lambda>c. conditionText (data c)) (filter (\<lambda>n. ntype n = ''condition'') ns))
               @ actions_text actionText_editor ns
    \<and> generateNaturalLanguage_preview ns es
           = ''IF '' @ js_join (joinOperator ns)
                         (map (\<lambda>c. conditionText (data c)) (filter (\<lambda>n. ntype n = ''condition'') ns))
               @ actions_text actionText_preview ns
    \<and> joinOperator ns
           = '' '' @ (case find (\<lambda>n. ntype n = ''operator'') ns of
                       None \<Rightarrow> ''AND''
                     | Some first \<Rightarrow> js_or_lit (operatorType (data first)) ''AND'') @ '' ''
    \<and> (\<forall>first k. find (\<lambda>n. ntype n = ''operator'') ns = Some first
          \<and> operatorType (data first) = Some k \<and> k \<noteq> [] \<longrightarrow> joinOperator ns = '' '' @ k @ '' '')
    \<and> (\<forall>es'. generateNaturalLanguage_editor ns es' = generateNaturalLanguage_editor ns es
             \<and> generateNaturalLanguage_preview ns es' = generateNaturalLanguage_preview ns es)"
proof -
  from assms have ne: "ns \<noteq> []" by auto
  have j: "joinOperator ns
           = '' '' @ (case find (\<lambda>n. ntype n = ''operator'') ns of
                       None \<Rightarrow> ''AND''
                     | Some first \<Rightarrow> js_or_lit (operatorType (data first)) ''AND'') @ '' ''"
    unfolding joinOperator_def Let_def
    by (induction ns) auto
  have t: "conditions_text ns
           = ''IF '' @ js_join (joinOperator ns)
                         (map (\<lambda>c. conditionText (data c)) (filter (\<lambda>n. ntype n = ''condition'') ns))"
    using assms by (auto simp: conditions_text_def Let_def)
  have "generateNaturalLanguage_editor ns es
           = ''IF '' @ js_join (joinOperator ns)
                         (map (\<lambda>c. conditionText (data c)) (filter (\<lambda>n. ntype n = ''condition'') ns))
               @ actions_text actionText_editor ns"
    using ne by (simp add: generateNaturalLanguage_editor_def t)
  moreover have "generateNaturalLanguage_preview ns es
           = ''IF '' @ js_join (joinOperator ns)
                         (map (\<lambda>c. conditionText (data c)) (filter (\<lambda>n. ntype n = ''condition'') ns))
               @ actions_text actionText_preview ns"
    using ne by (simp add: generateNaturalLanguage_preview_def t)
  moreover have "\<forall>first k. find (\<lambda>n. ntype n = ''operator'') ns = Some first
          \<and> operatorType (data first) = Some k \<and> k \<noteq> [] \<longrightarrow> joinOperator ns = '' '' @ k @ '' ''"
    by (simp add: j js_or_lit_def)
  moreover have "\<forall>es'. generateNaturalLanguage_editor ns es' = generateNaturalLanguage_editor ns es
             \<and> generateNaturalLanguage_preview ns es' = generateNaturalLanguage_preview ns es"
    by (simp add: generateNaturalLanguage_editor_def generateNaturalLanguage_preview_def)
  ultimately show ?thesis
    using j by blast
qed

theorem generateNaturalLanguage_join_operator_witness:
  "2 \<le> length (filter (\<lambda>n. ntype n = ''condition'') two_conditions)
   \<and> generateNaturalLanguage_editor two_conditions []
        = ''IF temp is greater than 30 OR humidity is less than 40 THEN turn_on fan''
   \<and> generateNaturalLanguage_preview two_conditions [mk_edge ''c1'' ''a1'']
        = ''IF temp is greater than 30 OR humidity is less than 40 THEN turn on fan''"
proof -
  have h: "2 \<le> length (filter (\<lambda>n. ntype n = ''condition'') two_conditions)"
    by (simp add: two_conditions_def example_defs)
  have e: "generateNaturalLanguage_editor two_conditions []
        = ''IF temp is greater than 30 OR humidity is less than 40 THEN turn_on fan''"
    by code_simp
  have p: "generateNaturalLanguage_preview two_conditions []
        = ''IF temp is greater than 30 OR humidity is less than 40 THEN turn on fan''"
    by code_simp
  from generateNaturalLanguage_join_operator [OF h, of "[]"] have "generateNaturalLanguage_preview two_conditions [mk_edge ''c1'' ''a1'']
      = generateNaturalLanguage_preview two_conditions []"
    by blast
  with h e p show ?thesis by simp
qed

end
